theory Spec2Isabelle
  imports Complex_Main "HOL-Library.Word"
begin

unbundle bit_operations_syntax

section \<open>The Control-Rate Bridge shared between the cores\<close>

text \<open>
  The three cores communicate through the structure \<^verbatim>\<open>multicore_data\<close>.
  Bytes (\<^verbatim>\<open>uint8_t\<close>, and the byte values stored in the structure) are 8-bit words.
  A C array is a function from its index: every index the sources use is a loop counter
  below a constant bound, a MIDI data byte (below 128) or a channel nibble (below 16),
  so no access is out of range.
\<close>

type_synonym byte = "8 word"

record midi_note_entry =
  velocity :: byte
  velocity_prev :: byte

text \<open>
  Modelled from the spec: the declaration of the shared structure
  (\<^verbatim>\<open>common/multicore_shared_memory.h\<close>) is missing. Its fields are the ones the sources
  access: \<^verbatim>\<open>midi_note[i].velocity\<close>, \<^verbatim>\<open>midi_note[i].velocity_prev\<close>,
  \<^verbatim>\<open>midi_cc_values[i]\<close>, \<^verbatim>\<open>midi_cc_values_prev[i]\<close> and, in the Synth_core0 decoder,
  \<^verbatim>\<open>midi_note_velocities[i]\<close>; the spec's data model gives each slot a byte value.
\<close>

record multicore =
  midi_note :: "nat \<Rightarrow> midi_note_entry"
  midi_note_velocities :: "nat \<Rightarrow> byte"
  midi_cc_values :: "nat \<Rightarrow> byte"
  midi_cc_values_prev :: "nat \<Rightarrow> byte"

definition zero_note :: midi_note_entry where
  "zero_note = \<lparr>velocity = 0, velocity_prev = 0\<rparr>"

definition zero_bytes :: "nat \<Rightarrow> byte" where
  "zero_bytes = (\<lambda>i. 0)"

definition zero_notes :: "nat \<Rightarrow> midi_note_entry" where
  "zero_notes = (\<lambda>i. zero_note)"

definition multicore_zero :: multicore where
  "multicore_zero =
     \<lparr>midi_note = zero_notes, midi_note_velocities = zero_bytes,
      midi_cc_values = zero_bytes, midi_cc_values_prev = zero_bytes\<rparr>"

section \<open>The MIDI decoder with static state (src/unnamed/part_000)\<close>

text \<open>
  The four file-scope statics \<^verbatim>\<open>midi_status\<close>, \<^verbatim>\<open>midi_channel\<close>, \<^verbatim>\<open>midi_note_num\<close>
  and \<^verbatim>\<open>midi_byte_num\<close>, all \<^verbatim>\<open>uint8_t\<close> and initialised to 0.
\<close>

record midi_decoder =
  midi_status :: byte
  midi_channel :: byte
  midi_note_num :: byte
  midi_byte_num :: byte

definition midi_reset :: midi_decoder where
  "midi_reset = \<lparr>midi_status = 0, midi_channel = 0, midi_note_num = 0, midi_byte_num = 0\<rparr>"

text \<open>The assignment \<^verbatim>\<open>multicore_data->midi_note[n].velocity = v\<close>.\<close>

definition set_velocity :: "nat \<Rightarrow> byte \<Rightarrow> multicore \<Rightarrow> multicore" where
  "set_velocity n v md = md\<lparr>midi_note := (midi_note md)(n := (midi_note md n)\<lparr>velocity := v\<rparr>)\<rparr>"

text \<open>
  The body of the \<^verbatim>\<open>while (uart_available(...))\<close> loop for one byte \<^verbatim>\<open>val\<close> read from
  the FIFO. The calls of \<^verbatim>\<open>log_event\<close> only write to the event log and are left out.
  \<^verbatim>\<open>midi_byte_num ++\<close> wraps at 256, as the word addition does.
\<close>

definition midi_rx_data :: "byte \<Rightarrow> midi_decoder \<times> multicore \<Rightarrow> midi_decoder \<times> multicore" where
  "midi_rx_data val s =
     (case s of (st, md) \<Rightarrow>
        if midi_status st = 0x80 then
          (if midi_byte_num st = 0 then (st, set_velocity (unat val) 0 md) else (st, md))
        else if midi_status st = 0x90 then
          (if midi_byte_num st = 0 then (st\<lparr>midi_note_num := val\<rparr>, md)
           else if midi_byte_num st = 1 then (st, set_velocity (unat (midi_note_num st)) val md)
           else (st, md))
        else if midi_status st = 0xB0 then
          (if midi_byte_num st = 0 then (st\<lparr>midi_note_num := val\<rparr>, md)
           else if midi_byte_num st = 1 then
             (if midi_note_num st = 74
              then (st, md\<lparr>midi_cc_values := (midi_cc_values md)(unat (midi_channel st) := val)\<rparr>)
              else (st, md))
           else (st, md))
        else (st, md))"

definition midi_rx_byte :: "byte \<Rightarrow> midi_decoder \<times> multicore \<Rightarrow> midi_decoder \<times> multicore" where
  "midi_rx_byte val s =
     (if val AND 0x80 = 0x80 then
        (case s of (st, md) \<Rightarrow>
           (st\<lparr>midi_channel := val AND 0x0F, midi_status := val AND 0xF0,
               midi_note_num := 0, midi_byte_num := 0\<rparr>, md))
      else
        (case midi_rx_data val s of (st, md) \<Rightarrow>
           (st\<lparr>midi_byte_num := midi_byte_num st + 1\<rparr>, md)))"

text \<open>
  One invocation of \<^verbatim>\<open>midi_rx_callback_arm\<close>: the loop reads the bytes waiting in the
  UART FIFO, in order, until it is empty.
\<close>

primrec midi_rx_callback_arm :: "byte list \<Rightarrow> midi_decoder \<times> multicore \<Rightarrow> midi_decoder \<times> multicore" where
  "midi_rx_callback_arm [] s = s"
| "midi_rx_callback_arm (val # fifo) s = midi_rx_callback_arm fifo (midi_rx_byte val s)"

section \<open>The MIDI decoder with local state (Synth_core0/src/callback_midi_message.cpp)\<close>

text \<open>
  Here \<^verbatim>\<open>status\<close>, \<^verbatim>\<open>channel\<close>, \<^verbatim>\<open>note_num\<close> and \<^verbatim>\<open>command_num\<close> are locals of the
  callback, set to 0 when it is entered.
\<close>

record midi_locals =
  status :: byte
  channel :: byte
  note_num :: byte
  command_num :: byte

definition locals_init :: midi_locals where
  "locals_init = \<lparr>status = 0, channel = 0, note_num = 0, command_num = 0\<rparr>"

definition core0_rx_data :: "byte \<Rightarrow> midi_locals \<times> multicore \<Rightarrow> midi_locals \<times> multicore" where
  "core0_rx_data val s =
     (case s of (st, md) \<Rightarrow>
        if status st = 0x80 then
          (if command_num st = 0
           then (st, md\<lparr>midi_note_velocities := (midi_note_velocities md)(unat val := 0)\<rparr>)
           else (st, md))
        else if status st = 0x90 then
          (if command_num st = 0 then (st\<lparr>note_num := val\<rparr>, md)
           else if command_num st = 1
           then (st, md\<lparr>midi_note_velocities := (midi_note_velocities md)(unat (note_num st) := val)\<rparr>)
           else (st, md))
        else if status st = 0xB0 then
          (if command_num st = 0 then (st\<lparr>note_num := val\<rparr>, md)
           else if command_num st = 1
           then (st, md\<lparr>midi_cc_values := (midi_cc_values md)(unat (note_num st) := val)\<rparr>)
           else (st, md))
        else (st, md))"

definition core0_rx_byte :: "byte \<Rightarrow> midi_locals \<times> multicore \<Rightarrow> midi_locals \<times> multicore" where
  "core0_rx_byte val s =
     (if val AND 0x80 \<noteq> 0 then
        (case s of (st, md) \<Rightarrow>
           (st\<lparr>channel := val AND 0x0F, status := val AND 0xF0, command_num := 0\<rparr>, md))
      else
        (case core0_rx_data val s of (st, md) \<Rightarrow>
           (st\<lparr>command_num := command_num st + 1\<rparr>, md)))"

primrec core0_rx_loop :: "byte list \<Rightarrow> midi_locals \<times> multicore \<Rightarrow> midi_locals \<times> multicore" where
  "core0_rx_loop [] s = s"
| "core0_rx_loop (val # fifo) s = core0_rx_loop fifo (core0_rx_byte val s)"

text \<open>
  One invocation of the Synth_core0 \<^verbatim>\<open>midi_rx_callback_arm\<close> on the bytes waiting in the
  FIFO: the locals start at 0 and are lost when the callback returns.
\<close>

definition core0_midi_rx_callback_arm :: "byte list \<Rightarrow> multicore \<Rightarrow> multicore" where
  "core0_midi_rx_callback_arm fifo md = snd (core0_rx_loop fifo (locals_init, md))"

section \<open>The synth core (Synth_core1/src/callback_audio_processing.cpp)\<close>

text \<open>
  Modelled from the spec: the voice type \<^verbatim>\<open>SIMPLE_SYNTH\<close> and its entry points
  \<^verbatim>\<open>synth_play_note\<close> and \<^verbatim>\<open>synth_stop_note\<close> (\<^verbatim>\<open>simple_synth.h\<close>) are missing. The spec
  gives a voice a \<open>playing\<close> flag, an assigned note number, an amplitude scale and
  oscillator phase state; \<open>start(note, amplitude)\<close> resets the oscillator phase, sets
  \<open>playing = true\<close> and stores note and amplitude; \<open>stop()\<close> sets \<open>playing = false\<close>.
  The source reads the fields \<^verbatim>\<open>playing\<close> and \<^verbatim>\<open>note\<close> itself; the field \<^verbatim>\<open>note\<close>
  is \<open>note_nr\<close> here, \<open>note\<close> being a keyword.

  Floating-point values are rationals here. The amplitude \<^verbatim>\<open>(float)velocity * (1.0/128.0)\<close>
  is a multiple of \<open>1/128\<close> below 2, which binary floating point represents exactly.
\<close>

record simple_synth =
  playing :: bool
  note_nr :: nat
  amplitude :: rat
  phase :: rat

definition synth_play_note :: "simple_synth \<Rightarrow> nat \<Rightarrow> rat \<Rightarrow> simple_synth" where
  "synth_play_note c n a = c\<lparr>playing := True, note_nr := n, amplitude := a, phase := 0\<rparr>"

definition synth_stop_note :: "simple_synth \<Rightarrow> simple_synth" where
  "synth_stop_note c = c\<lparr>playing := False\<rparr>"

text \<open>
  The state of SHARC core 1: the shared structure, the bank \<^verbatim>\<open>synth_voices[16]\<close> and the
  two output buffers the block callback touches.
\<close>

record sharc1 =
  shared :: multicore
  synth_voices :: "nat \<Rightarrow> simple_synth"
  audiochannel_0_left_out :: "rat list"
  audiochannel_0_right_out :: "rat list"

text \<open>
  The note-off scan
  \<^verbatim>\<open>do { if (playing && note == i) { stop; found = true; } indx++; } while (!found && indx < 16);\<close>
  \<^verbatim>\<open>found\<close> is false on entry and is set exactly when the test succeeds, so the loop leaves
  after the first match, and otherwise goes on while the next index is below 16.
\<close>

function note_off_scan :: "nat \<Rightarrow> nat \<Rightarrow> (nat \<Rightarrow> simple_synth) \<Rightarrow> (nat \<Rightarrow> simple_synth)" where
  "note_off_scan i indx voices =
     (if playing (voices indx) \<and> note_nr (voices indx) = i
      then voices(indx := synth_stop_note (voices indx))
      else if indx + 1 < 16 then note_off_scan i (indx + 1) voices else voices)"
  by pat_completeness auto
termination
  by (relation "measure (\<lambda>(i, indx, voices). 16 - indx)") auto

text \<open>
  The note-on scan
  \<^verbatim>\<open>do { if (!playing) { synth_play_note(.., i, amp); found = true; } indx++; } while (!found && indx < 16);\<close>
\<close>

function note_on_scan :: "nat \<Rightarrow> rat \<Rightarrow> nat \<Rightarrow> (nat \<Rightarrow> simple_synth) \<Rightarrow> (nat \<Rightarrow> simple_synth)" where
  "note_on_scan i amp indx voices =
     (if \<not> playing (voices indx)
      then voices(indx := synth_play_note (voices indx) i amp)
      else if indx + 1 < 16 then note_on_scan i amp (indx + 1) voices else voices)"
  by pat_completeness auto
termination
  by (relation "measure (\<lambda>(i, amp, indx, voices). 16 - indx)") auto

text \<open>
  The body of the loop over the 128 note slots, for slot \<open>i\<close>. The velocity is read as
  the unsigned byte; the decoder stores MIDI data bytes only (below 128), on which a signed
  field would have the same value.
\<close>

definition note_slot :: "nat \<Rightarrow> sharc1 \<Rightarrow> sharc1" where
  "note_slot i s =
     (let e = midi_note (shared s) i in
      if velocity e \<noteq> velocity_prev e then
        (let md = (shared s)\<lparr>midi_note := (midi_note (shared s))(i := e\<lparr>velocity_prev := velocity e\<rparr>)\<rparr>
         in if velocity e = 0
            then s\<lparr>shared := md, synth_voices := note_off_scan i 0 (synth_voices s)\<rparr>
            else s\<lparr>shared := md,
                   synth_voices := note_on_scan i (of_nat (unat (velocity e)) * (1 / 128)) 0 (synth_voices s)\<rparr>)
      else s)"

definition core1_processaudio_background_loop :: "sharc1 \<Rightarrow> sharc1" where
  "core1_processaudio_background_loop s = fold note_slot [0..<128] s"

text \<open>
  Modelled from the spec: the buffer utilities \<^verbatim>\<open>clear_buffer\<close>, \<^verbatim>\<open>mix_2x1\<close> and
  \<^verbatim>\<open>gain_buffer\<close> (\<^verbatim>\<open>audio_utilities.h\<close>) are missing. Following the spec's block pipeline
  they clear a buffer, add two buffers sample-wise and scale a buffer by a gain;
  \<^verbatim>\<open>gain_buffer(buffer, gain, size)\<close> has one buffer argument, which it scales in place.
\<close>

definition clear_buffer :: "nat \<Rightarrow> rat list" where
  "clear_buffer n = replicate n 0"

definition mix_2x1 :: "rat list \<Rightarrow> rat list \<Rightarrow> rat list" where
  "mix_2x1 a b = map2 (+) a b"

definition gain_buffer :: "rat list \<Rightarrow> rat \<Rightarrow> nat \<Rightarrow> rat list" where
  "gain_buffer buffer g n = map (\<lambda>x. x * g) (take n buffer) @ drop n buffer"

text \<open>
  The voice loop of the block callback. \<^verbatim>\<open>synth_read\<close> is missing and is a parameter: from
  a voice and a block size it gives the generated block and the voice's new state.
\<close>

definition voice_block ::
  "(simple_synth \<Rightarrow> nat \<Rightarrow> rat list \<times> simple_synth) \<Rightarrow> nat \<Rightarrow> nat \<Rightarrow>
   (nat \<Rightarrow> simple_synth) \<times> rat list \<Rightarrow> (nat \<Rightarrow> simple_synth) \<times> rat list" where
  "voice_block synth_read n i s =
     (case s of (voices, temp_audio_accum) \<Rightarrow>
        (case synth_read (voices i) n of (temp_audio, c) \<Rightarrow>
           (voices(i := c), mix_2x1 temp_audio temp_audio_accum)))"

definition mix_voices ::
  "(simple_synth \<Rightarrow> nat \<Rightarrow> rat list \<times> simple_synth) \<Rightarrow> nat \<Rightarrow>
   (nat \<Rightarrow> simple_synth) \<Rightarrow> (nat \<Rightarrow> simple_synth) \<times> rat list" where
  "mix_voices synth_read n voices = fold (voice_block synth_read n) [0..<16] (voices, clear_buffer n)"

text \<open>
  \<^verbatim>\<open>processaudio_callback\<close> with \<^verbatim>\<open>AUDIO_BLOCK_SIZE = n\<close>: the accumulator is a local of the
  callback, and the two \<^verbatim>\<open>gain_buffer\<close> calls are given the output buffers only.
\<close>

definition core1_processaudio_callback ::
  "(simple_synth \<Rightarrow> nat \<Rightarrow> rat list \<times> simple_synth) \<Rightarrow> nat \<Rightarrow> sharc1 \<Rightarrow> sharc1" where
  "core1_processaudio_callback synth_read n s =
     (case mix_voices synth_read n (synth_voices s) of (voices, temp_audio_accum) \<Rightarrow>
        s\<lparr>synth_voices := voices,
          audiochannel_0_left_out := gain_buffer (audiochannel_0_left_out s) (1 / 4) n,
          audiochannel_0_right_out := gain_buffer (audiochannel_0_right_out s) (1 / 4) n\<rparr>)"

text \<open>Runs of the system: the decoder stores a velocity, or the background pass runs.\<close>

datatype event = Decoder_write nat byte | Background_pass

fun core1_step :: "event \<Rightarrow> sharc1 \<Rightarrow> sharc1" where
  "core1_step (Decoder_write n v) s = s\<lparr>shared := set_velocity n v (shared s)\<rparr>"
| "core1_step Background_pass s = core1_processaudio_background_loop s"

definition core1_run :: "event list \<Rightarrow> sharc1 \<Rightarrow> sharc1" where
  "core1_run evs s = fold core1_step evs s"

definition silent_voice :: simple_synth where
  "silent_voice = \<lparr>playing = False, note_nr = 0, amplitude = 0, phase = 0\<rparr>"

definition silent_voices :: "nat \<Rightarrow> simple_synth" where
  "silent_voices = (\<lambda>i. silent_voice)"

definition sharc1_init :: sharc1 where
  "sharc1_init =
     \<lparr>shared = multicore_zero, synth_voices = silent_voices,
      audiochannel_0_left_out = [0, 0, 0, 0], audiochannel_0_right_out = [0, 0, 0, 0]\<rparr>"

definition one_voice_per_note :: "(nat \<Rightarrow> simple_synth) \<Rightarrow> bool" where
  "one_voice_per_note voices =
     (\<forall>i\<in>{0..<16}. \<forall>j\<in>{0..<16}.
        playing (voices i) \<and> playing (voices j) \<and> note_nr (voices i) = note_nr (voices j) \<longrightarrow> i = j)"

text \<open>
  The runs in which a note-on is only ever observed for a note that was off: the decoder
  stores a nonzero velocity in a slot only while the slot's \<^verbatim>\<open>velocity_prev\<close> is 0 (or
  stores the value \<^verbatim>\<open>velocity_prev\<close> already has).
\<close>

fun event_gated :: "event \<Rightarrow> sharc1 \<Rightarrow> bool" where
  "event_gated (Decoder_write n v) s =
     (n < 128 \<and> (v = 0 \<or> velocity_prev (midi_note (shared s) n) = 0
                 \<or> v = velocity_prev (midi_note (shared s) n)))"
| "event_gated Background_pass s = True"

fun run_gated :: "event list \<Rightarrow> sharc1 \<Rightarrow> bool" where
  "run_gated [] s = True"
| "run_gated (e # evs) s = (event_gated e s \<and> run_gated evs (core1_step e s))"

section \<open>The effects core (Synth_core2/src/callback_audio_processing.cpp)\<close>

text \<open>
  The entry points \<^verbatim>\<open>delay_modify_feedback\<close>, \<^verbatim>\<open>delay_modify_length\<close> and
  \<^verbatim>\<open>filter_modify_freq\<close> are missing; the background pass is modelled by the calls it makes
  to them, in order, with their arguments.
\<close>

datatype dsp_call =
  Delay_modify_feedback rat
| Delay_modify_length nat
| Filter_modify_freq rat

text \<open>
  Modelled from the spec: the element type of \<^verbatim>\<open>midi_cc_values\<close> and
  \<^verbatim>\<open>midi_cc_values_prev\<close> is missing; the slots hold byte values, and they are taken to
  have the type of the local \<^verbatim>\<open>char val\<close>, so that \<^verbatim>\<open>!=\<close> compares the bytes. The SHARC
  compiler's \<^verbatim>\<open>char\<close> is signed: the value of \<^verbatim>\<open>val\<close> in \<^verbatim>\<open>val / 128.f\<close> is \<open>sint val\<close>,
  which is the byte itself for the MIDI data bytes 0 to 127.

  The floating-point expressions are evaluated over the rationals. \<^verbatim>\<open>val / 128.f\<close>,
  \<^verbatim>\<open>3000.f * (val / 128.f) + 100.f\<close> and, for a sample rate below \<open>2^17\<close>,
  \<^verbatim>\<open>(float)AUDIO_SAMPLE_RATE * (val / 128.f)\<close> are multiples of \<open>1/128\<close> with a numerator
  below \<open>2^24\<close>, which single precision represents exactly; \<^verbatim>\<open>0.9 * (val / 128.f)\<close> is
  taken at its exact value. The conversion to \<^verbatim>\<open>uint32_t\<close> truncates; on the negative
  values, which C leaves undefined, the model gives 0.
\<close>

definition char_float :: "byte \<Rightarrow> rat" where
  "char_float val = of_int (sint val)"

definition delay_buffer_size :: "nat \<Rightarrow> nat" where
  "delay_buffer_size AUDIO_SAMPLE_RATE = AUDIO_SAMPLE_RATE * 2"

definition cc4_block :: "multicore \<times> dsp_call list \<Rightarrow> multicore \<times> dsp_call list" where
  "cc4_block s =
     (case s of (md, calls) \<Rightarrow>
        (let val = midi_cc_values md 4 in
         if midi_cc_values_prev md 4 \<noteq> val
         then (md\<lparr>midi_cc_values_prev := (midi_cc_values_prev md)(4 := val)\<rparr>,
               calls @ [Delay_modify_feedback (9 / 10 * (char_float val / 128))])
         else (md, calls)))"

definition cc5_block :: "nat \<Rightarrow> multicore \<times> dsp_call list \<Rightarrow> multicore \<times> dsp_call list" where
  "cc5_block AUDIO_SAMPLE_RATE s =
     (case s of (md, calls) \<Rightarrow>
        (let val = midi_cc_values md 5 in
         if midi_cc_values_prev md 5 \<noteq> val
         then (md\<lparr>midi_cc_values_prev := (midi_cc_values_prev md)(5 := val)\<rparr>,
               calls @ [Delay_modify_length
                          (nat \<lfloor>of_nat AUDIO_SAMPLE_RATE * (char_float val / 128)\<rfloor>)])
         else (md, calls)))"

definition cc6_block :: "multicore \<times> dsp_call list \<Rightarrow> multicore \<times> dsp_call list" where
  "cc6_block s =
     (case s of (md, calls) \<Rightarrow>
        (let val = midi_cc_values md 6 in
         if midi_cc_values_prev md 6 \<noteq> val
         then (md\<lparr>midi_cc_values_prev := (midi_cc_values_prev md)(6 := val)\<rparr>,
               calls @ [Filter_modify_freq (3000 * (char_float val / 128) + 100)])
         else (md, calls)))"

text \<open>
  \<^verbatim>\<open>processaudio_background_loop\<close> of core 2, with \<^verbatim>\<open>AUDIO_SAMPLE_RATE\<close> (a missing
  constant) as a parameter: the three blocks for the slots 4, 5 and 6 in sequence.
\<close>

definition core2_processaudio_background_loop :: "nat \<Rightarrow> multicore \<Rightarrow> multicore \<times> dsp_call list" where
  "core2_processaudio_background_loop AUDIO_SAMPLE_RATE md =
     cc6_block (cc5_block AUDIO_SAMPLE_RATE (cc4_block (md, [])))"

text \<open>Concrete inputs used in the examples below.\<close>

definition bridge_note60_held :: multicore where
  "bridge_note60_held =
     multicore_zero\<lparr>midi_note := zero_notes(60 := \<lparr>velocity = 100, velocity_prev = 100\<rparr>),
                    midi_note_velocities := zero_bytes(60 := 100)\<rparr>"

definition note_off_pending :: midi_decoder where
  "note_off_pending = midi_reset\<lparr>midi_status := 0x80\<rparr>"

definition bridge_cc_moved :: multicore where
  "bridge_cc_moved =
     multicore_zero\<lparr>midi_cc_values := zero_bytes(4 := 64, 5 := 127, 6 := 32)\<rparr>"

definition busy_voice :: simple_synth where
  "busy_voice = \<lparr>playing = True, note_nr = 0, amplitude = 1, phase = 0\<rparr>"

definition busy_voices :: "nat \<Rightarrow> simple_synth" where
  "busy_voices = (\<lambda>i. busy_voice\<lparr>note_nr := i\<rparr>)"

definition note60_on :: sharc1 where
  "note60_on = core1_step (Decoder_write 60 100) sharc1_init"

definition bank_full_note70_on :: sharc1 where
  "bank_full_note70_on =
     core1_step (Decoder_write 70 100) (sharc1_init\<lparr>synth_voices := busy_voices\<rparr>)"

definition note61_off_unplayed :: sharc1 where
  "note61_off_unplayed =
     sharc1_init\<lparr>shared :=
       multicore_zero\<lparr>midi_note := zero_notes(61 := \<lparr>velocity = 0, velocity_prev = 5\<rparr>)\<rparr>\<rparr>"

text \<open>
  Note 60 is struck at velocity 100 and struck again at velocity 90 with no note-off in
  between, a background pass running after each; then its note-off arrives.
\<close>

definition retriggered_60 :: sharc1 where
  "retriggered_60 =
     core1_run [Decoder_write 60 100, Background_pass, Decoder_write 60 90, Background_pass]
       sharc1_init"

definition retriggered_60_off :: sharc1 where
  "retriggered_60_off = core1_step (Decoder_write 60 0) retriggered_60"

text \<open>
  A stand-in for \<^verbatim>\<open>synth_read\<close> at the example input: a playing voice emits its amplitude
  on every sample, a voice that is not playing emits silence.
\<close>

definition dc_synth_read :: "simple_synth \<Rightarrow> nat \<Rightarrow> rat list \<times> simple_synth" where
  "dc_synth_read c n = (replicate n (if playing c then amplitude c else 0), c)"

definition voice0_sounding :: sharc1 where
  "voice0_sounding = sharc1_init\<lparr>synth_voices := silent_voices(0 := busy_voice)\<rparr>"

text \<open>The invariant of the voice bank along gated runs.\<close>

definition prev_off_free :: "sharc1 \<Rightarrow> bool" where
  "prev_off_free s =
     (\<forall>n<128. velocity_prev (midi_note (shared s) n) = 0 \<longrightarrow>
        (\<forall>k<16. playing (synth_voices s k) \<longrightarrow> note_nr (synth_voices s k) \<noteq> n))"

definition slots_gated :: "sharc1 \<Rightarrow> bool" where
  "slots_gated s =
     (\<forall>n<128. velocity (midi_note (shared s) n) = velocity_prev (midi_note (shared s) n)
        \<or> velocity (midi_note (shared s) n) = 0 \<or> velocity_prev (midi_note (shared s) n) = 0)"

definition bank_inv :: "sharc1 \<Rightarrow> bool" where
  "bank_inv s = (one_voice_per_note (synth_voices s) \<and> prev_off_free s \<and> slots_gated s)"

declare note_off_scan.simps [simp del] note_on_scan.simps [simp del]

section \<open>Facts about bytes and loops\<close>

lemma status_byte_high_bit:
  "(s::byte) AND 0xF0 = c \<Longrightarrow> c AND 0x80 = 0x80 \<Longrightarrow> s AND 0x80 = 0x80"
proof -
  assume a: "s AND 0xF0 = c" and c: "c AND 0x80 = 0x80"
  have "s AND 0x80 = (s AND 0xF0) AND 0x80" by (simp add: and.assoc)
  also have "\<dots> = 0x80" by (simp add: a c)
  finally show ?thesis .
qed

lemma sint_data_byte: "(v::byte) \<le> 127 \<Longrightarrow> sint v = int (unat v)"
proof -
  assume "v \<le> 127"
  then have u: "uint v \<le> 127" by (simp add: word_le_def)
  have "sint v = signed_take_bit 7 (uint v)" by (simp add: sint_uint)
  also have "\<dots> = uint v"
  proof (rule signed_take_bit_int_eq_self)
    show "- (2 ^ 7) \<le> uint v" by (rule order_trans [of _ 0]) simp_all
    show "uint v < 2 ^ 7" using u by simp
  qed
  finally show ?thesis by simp
qed

lemma char_float_data_byte: "(v::byte) \<le> 127 \<Longrightarrow> char_float v = of_nat (unat v)"
  by (simp add: char_float_def sint_data_byte)

lemma unat_data_byte: "(v::byte) \<le> 127 \<Longrightarrow> unat v \<le> 127"
  by (simp add: word_le_nat_alt)

lemma fold_unchanged: "(\<And>x. x \<in> set xs \<Longrightarrow> f x s = s) \<Longrightarrow> fold f xs s = s"
  by (induction xs) simp_all

section \<open>The MIDI decoder\<close>



text \<open>
  C6, as amended. With the command note-off (\<open>0x80\<close>) and byte position 0, a data byte
  carrying a note number sets that note's velocity to 0 and changes nothing else in the
  bridge: the note's \<^verbatim>\<open>velocity_prev\<close> keeps its value, which is what lets the background
  pass see the change. The Synth_core0 decoder does the same on \<^verbatim>\<open>midi_note_velocities\<close>.
\<close>

theorem note_off_first_data_byte:
  "(midi_status st = 0x80 \<and> midi_byte_num st = 0 \<and> val AND 0x80 \<noteq> 0x80 \<longrightarrow>
     snd (midi_rx_byte val (st, md)) = set_velocity (unat val) 0 md
     \<and> velocity (midi_note (snd (midi_rx_byte val (st, md))) (unat val)) = 0
     \<and> velocity_prev (midi_note (snd (midi_rx_byte val (st, md))) (unat val))
         = velocity_prev (midi_note md (unat val)))
   \<and> (status l = 0x80 \<and> command_num l = 0 \<and> val AND 0x80 = 0 \<longrightarrow>
     snd (core0_rx_byte val (l, md))
       = md\<lparr>midi_note_velocities := (midi_note_velocities md)(unat val := 0)\<rparr>)"
  by (simp add: midi_rx_byte_def midi_rx_data_def set_velocity_def
      core0_rx_byte_def core0_rx_data_def)

theorem note_off_first_data_byte_witness:
  "midi_status note_off_pending = 0x80 \<and> midi_byte_num note_off_pending = 0
   \<and> (0x3C :: byte) AND 0x80 \<noteq> 0x80
   \<and> velocity (midi_note (snd (midi_rx_byte 0x3C (note_off_pending, bridge_note60_held))) 60) = 0
   \<and> velocity_prev (midi_note (snd (midi_rx_byte 0x3C (note_off_pending, bridge_note60_held))) 60) = 100
   \<and> midi_note_velocities
        (snd (core0_rx_byte 0x3C (locals_init\<lparr>status := 0x80\<rparr>, bridge_note60_held))) 60 = 0
   \<and> midi_note
        (snd (core0_rx_byte 0x3C (locals_init\<lparr>status := 0x80\<rparr>, bridge_note60_held))) 60
       = \<lparr>velocity = 100, velocity_prev = 100\<rparr>"
  using note_off_first_data_byte
    [of note_off_pending "0x3C" bridge_note60_held "locals_init\<lparr>status := 0x80\<rparr>"]
  by (simp add: note_off_pending_def midi_reset_def bridge_note60_held_def multicore_zero_def
      set_velocity_def locals_init_def)

text \<open>
  With note 60 held at velocity 100 and already seen by the background pass, the note-off
  data byte \<open>0x3C\<close> does not leave both fields at 0: \<^verbatim>\<open>velocity_prev\<close> is still 100.
\<close>

theorem note_off_clears_prev_counterexample:
  "\<not> (velocity (midi_note (snd (midi_rx_byte 0x3C (note_off_pending, bridge_note60_held))) 60) = 0
      \<and> velocity_prev (midi_note (snd (midi_rx_byte 0x3C (note_off_pending, bridge_note60_held))) 60) = 0)"
  by (simp add: midi_rx_byte_def midi_rx_data_def midi_reset_def set_velocity_def
      note_off_pending_def bridge_note60_held_def multicore_zero_def)

text \<open>
  C10. In the decoder with static state, a control-change message (status \<open>0xB0\<close> plus
  channel, controller number, value) stores the value only when the controller number is
  74, and then in \<^verbatim>\<open>midi_cc_values\<close> at the index of the channel; for any other controller
  number the bridge is left as it was.
\<close>

theorem cc_message_only_controller_74:
  assumes "s AND 0xF0 = 0xB0" and "d1 AND 0x80 \<noteq> 0x80" and "d2 AND 0x80 \<noteq> 0x80"
  shows "snd (midi_rx_callback_arm [s, d1, d2] (st, md)) =
           (if d1 = 74 then md\<lparr>midi_cc_values := (midi_cc_values md)(unat (s AND 0x0F) := d2)\<rparr>
            else md)"
proof -
  have hs: "s AND 0x80 = 0x80"
    using assms(1) by (rule status_byte_high_bit) simp
  show ?thesis
    using assms by (simp add: hs midi_rx_byte_def midi_rx_data_def)
qed

theorem cc_message_only_controller_74_witness:
  "midi_cc_values (snd (midi_rx_callback_arm [0xB3, 74, 55] (midi_reset, multicore_zero))) 3 = 55
   \<and> midi_cc_values (snd (midi_rx_callback_arm [0xB3, 74, 55] (midi_reset, multicore_zero))) 74 = 0
   \<and> snd (midi_rx_callback_arm [0xB3, 4, 55] (midi_reset, multicore_zero)) = multicore_zero"
  using cc_message_only_controller_74 [of "0xB3" 74 55 midi_reset multicore_zero]
    cc_message_only_controller_74 [of "0xB3" 4 55 midi_reset multicore_zero]
  by (simp add: multicore_zero_def zero_bytes_def)

subsection \<open>The decoder whose state is local to the callback\<close>

lemma core0_rx_loop_data:
  "\<forall>b\<in>set ds. b AND 0x80 = 0 \<Longrightarrow> status st = 0 \<Longrightarrow>
   core0_rx_loop ds (st, md) = (st\<lparr>command_num := command_num st + of_nat (length ds)\<rparr>, md)"
proof (induction ds arbitrary: st)
  case Nil
  then show ?case by simp
next
  case (Cons b ds)
  have step: "core0_rx_byte b (st, md) = (st\<lparr>command_num := command_num st + 1\<rparr>, md)"
    using Cons.prems by (simp add: core0_rx_byte_def core0_rx_data_def)
  show ?case
    using Cons.prems by (simp add: step Cons.IH add.assoc)
qed

lemma core0_data_only:
  "\<forall>b\<in>set ds. b AND 0x80 = 0 \<Longrightarrow> core0_midi_rx_callback_arm ds md = md"
  by (simp add: core0_midi_rx_callback_arm_def core0_rx_loop_data locals_init_def)

lemma core0_rx_loop_append:
  "core0_rx_loop (xs @ ys) s = core0_rx_loop ys (core0_rx_loop xs s)"
  by (induction xs arbitrary: s) simp_all

lemma core0_data_then_status:
  assumes "\<forall>b\<in>set ds. b AND 0x80 = 0" and "s AND 0x80 \<noteq> 0"
  shows "core0_midi_rx_callback_arm (ds @ s # rest) md = core0_midi_rx_callback_arm (s # rest) md"
  using assms
  by (simp add: core0_midi_rx_callback_arm_def core0_rx_loop_append core0_rx_loop_data
      locals_init_def core0_rx_byte_def)

text \<open>
  C9, as amended. In the Synth_core0 decoder the state is local to one invocation. Data
  bytes that arrive in an invocation before any status byte are consumed without a write
  to the bridge, and the invocation goes on as if they had not been there. A three-byte
  message split after its status byte is never applied, and a message of any command but
  note-off split after its first data byte is never applied either. A note-off message
  split after its note number is applied, by the first invocation: its only write happens
  at the first data byte.
\<close>

theorem core0_state_not_kept:
  "((\<forall>b\<in>set ds. b AND 0x80 = 0) \<longrightarrow> core0_midi_rx_callback_arm ds md = md)
   \<and> ((\<forall>b\<in>set ds. b AND 0x80 = 0) \<and> s AND 0x80 \<noteq> 0 \<longrightarrow>
        core0_midi_rx_callback_arm (ds @ s # rest) md = core0_midi_rx_callback_arm (s # rest) md)
   \<and> (s AND 0x80 \<noteq> 0 \<and> d1 AND 0x80 = 0 \<and> d2 AND 0x80 = 0 \<longrightarrow>
        core0_midi_rx_callback_arm [d1, d2] (core0_midi_rx_callback_arm [s] md) = md)
   \<and> (s AND 0x80 \<noteq> 0 \<and> s AND 0xF0 \<noteq> 0x80 \<and> d1 AND 0x80 = 0 \<and> d2 AND 0x80 = 0 \<longrightarrow>
        core0_midi_rx_callback_arm [d2] (core0_midi_rx_callback_arm [s, d1] md) = md)
   \<and> (s AND 0xF0 = 0x80 \<and> d1 AND 0x80 = 0 \<and> d2 AND 0x80 = 0 \<longrightarrow>
        core0_midi_rx_callback_arm [d2] (core0_midi_rx_callback_arm [s, d1] md)
          = md\<lparr>midi_note_velocities := (midi_note_velocities md)(unat d1 := 0)\<rparr>)"
proof (intro conjI impI)
  assume "\<forall>b\<in>set ds. b AND 0x80 = 0"
  then show "core0_midi_rx_callback_arm ds md = md" by (rule core0_data_only)
next
  assume "(\<forall>b\<in>set ds. b AND 0x80 = 0) \<and> s AND 0x80 \<noteq> 0"
  then show "core0_midi_rx_callback_arm (ds @ s # rest) md = core0_midi_rx_callback_arm (s # rest) md"
    by (simp add: core0_data_then_status)
next
  assume "s AND 0x80 \<noteq> 0 \<and> d1 AND 0x80 = 0 \<and> d2 AND 0x80 = 0"
  then show "core0_midi_rx_callback_arm [d1, d2] (core0_midi_rx_callback_arm [s] md) = md"
    by (simp add: core0_midi_rx_callback_arm_def core0_rx_byte_def core0_rx_data_def locals_init_def)
next
  assume "s AND 0x80 \<noteq> 0 \<and> s AND 0xF0 \<noteq> 0x80 \<and> d1 AND 0x80 = 0 \<and> d2 AND 0x80 = 0"
  then show "core0_midi_rx_callback_arm [d2] (core0_midi_rx_callback_arm [s, d1] md) = md"
    by (simp add: core0_midi_rx_callback_arm_def core0_rx_byte_def core0_rx_data_def locals_init_def)
next
  assume a: "s AND 0xF0 = 0x80 \<and> d1 AND 0x80 = 0 \<and> d2 AND 0x80 = 0"
  then have "s AND 0x80 = 0x80"
    using status_byte_high_bit [of s "0x80"] by simp
  with a show "core0_midi_rx_callback_arm [d2] (core0_midi_rx_callback_arm [s, d1] md)
          = md\<lparr>midi_note_velocities := (midi_note_velocities md)(unat d1 := 0)\<rparr>"
    by (simp add: core0_midi_rx_callback_arm_def core0_rx_byte_def core0_rx_data_def locals_init_def)
qed

theorem core0_state_not_kept_witness:
  "core0_midi_rx_callback_arm [0x3C, 0x64] bridge_note60_held = bridge_note60_held
   \<and> core0_midi_rx_callback_arm ([0x3C, 0x64] @ 0x90 # [0x3E, 0x40]) bridge_note60_held
       = core0_midi_rx_callback_arm (0x90 # [0x3E, 0x40]) bridge_note60_held
   \<and> core0_midi_rx_callback_arm [0x3C, 0x64] (core0_midi_rx_callback_arm [0x90] bridge_note60_held)
       = bridge_note60_held
   \<and> core0_midi_rx_callback_arm [0x64] (core0_midi_rx_callback_arm [0x90, 0x3C] bridge_note60_held)
       = bridge_note60_held
   \<and> midi_note_velocities
       (core0_midi_rx_callback_arm [0x00] (core0_midi_rx_callback_arm [0x80, 0x3C] bridge_note60_held)) 60 = 0"
  using core0_state_not_kept [of "[0x3C, 0x64]" bridge_note60_held "0x90" "[0x3E, 0x40]" "0x3C" "0x64"]
    core0_state_not_kept [of "[]" bridge_note60_held "0x80" "[]" "0x3C" "0x00"]
  by simp

text \<open>
  The note-off message \<open>0x80 0x3C 0x00\<close> for the held note 60, split after its second
  byte: the two invocations do change the bridge, the velocity of note 60 goes from 100
  to 0.
\<close>

theorem core0_split_message_counterexample:
  "\<not> (core0_midi_rx_callback_arm [0x00] (core0_midi_rx_callback_arm [0x80, 0x3C] bridge_note60_held)
        = bridge_note60_held)
   \<and> midi_note_velocities bridge_note60_held 60 = 100
   \<and> midi_note_velocities
        (core0_midi_rx_callback_arm [0x00] (core0_midi_rx_callback_arm [0x80, 0x3C] bridge_note60_held)) 60 = 0"
proof -
  have a: "midi_note_velocities bridge_note60_held 60 = 100"
    by (simp add: bridge_note60_held_def multicore_zero_def)
  have b: "midi_note_velocities
        (core0_midi_rx_callback_arm [0x00] (core0_midi_rx_callback_arm [0x80, 0x3C] bridge_note60_held)) 60 = 0"
    by (simp add: core0_midi_rx_callback_arm_def core0_rx_byte_def core0_rx_data_def locals_init_def)
  from a b show ?thesis by auto
qed

section \<open>The background pass\<close>

lemma feedback_range:
  "n \<le> (127::nat) \<Longrightarrow>
   0 \<le> 9 / 10 * (of_nat n / 128 :: rat) \<and> 9 / 10 * (of_nat n / 128 :: rat) \<le> 9 / 10"
  by simp

lemma freq_range:
  "n \<le> (127::nat) \<Longrightarrow>
   100 \<le> 3000 * (of_nat n / 128 :: rat) + 100 \<and> 3000 * (of_nat n / 128 :: rat) + 100 \<le> 3100"
  by simp

lemma length_range:
  assumes "n \<le> (127::nat)"
  shows "nat \<lfloor>of_nat sr * (of_nat n / 128 :: rat)\<rfloor> \<le> sr"
proof -
  have "(of_nat n / 128 :: rat) \<le> 1" using assms by simp
  then have "of_nat sr * (of_nat n / 128 :: rat) \<le> of_nat sr * 1"
    by (intro mult_left_mono) simp_all
  then have "\<lfloor>of_nat sr * (of_nat n / 128 :: rat)\<rfloor> \<le> \<lfloor>of_nat sr :: rat\<rfloor>"
    by (intro floor_mono) simp
  then show ?thesis by simp
qed

lemma core2_calls:
  "snd (core2_processaudio_background_loop sr md) =
     (if midi_cc_values_prev md 4 \<noteq> midi_cc_values md 4
      then [Delay_modify_feedback (9 / 10 * (char_float (midi_cc_values md 4) / 128))] else [])
     @ (if midi_cc_values_prev md 5 \<noteq> midi_cc_values md 5
        then [Delay_modify_length (nat \<lfloor>of_nat sr * (char_float (midi_cc_values md 5) / 128)\<rfloor>)] else [])
     @ (if midi_cc_values_prev md 6 \<noteq> midi_cc_values md 6
        then [Filter_modify_freq (3000 * (char_float (midi_cc_values md 6) / 128) + 100)] else [])"
  by (simp add: core2_processaudio_background_loop_def cc4_block_def cc5_block_def cc6_block_def Let_def)

text \<open>
  C7. With byte values from 0 to 127 in the slots 4, 5 and 6, the background pass of core 2
  makes, for each slot whose value differs from its previous value, exactly one call:
  slot 4 gives modify-feedback with \<open>0.9 * (v / 128)\<close>, which lies in \<open>[0, 0.9]\<close>; slot 5
  gives modify-length with \<open>floor (AUDIO_SAMPLE_RATE * (v / 128))\<close>, which is at most
  \<open>AUDIO_SAMPLE_RATE\<close> and so within the delay buffer of \<open>AUDIO_SAMPLE_RATE * 2\<close> samples;
  slot 6 gives modify-frequency with \<open>3000 * (v / 128) + 100\<close>, which lies in
  \<open>[100, 3100]\<close>.
\<close>

theorem cc_changes_forwarded_in_range:
  assumes "midi_cc_values md 4 \<le> 127" and "midi_cc_values md 5 \<le> 127"
    and "midi_cc_values md 6 \<le> 127"
  shows "snd (core2_processaudio_background_loop sr md) =
     (if midi_cc_values_prev md 4 \<noteq> midi_cc_values md 4
      then [Delay_modify_feedback (9 / 10 * (of_nat (unat (midi_cc_values md 4)) / 128))] else [])
     @ (if midi_cc_values_prev md 5 \<noteq> midi_cc_values md 5
        then [Delay_modify_length (nat \<lfloor>of_nat sr * (of_nat (unat (midi_cc_values md 5)) / 128 :: rat)\<rfloor>)]
        else [])
     @ (if midi_cc_values_prev md 6 \<noteq> midi_cc_values md 6
        then [Filter_modify_freq (3000 * (of_nat (unat (midi_cc_values md 6)) / 128) + 100)] else [])
   \<and> 0 \<le> 9 / 10 * (of_nat (unat (midi_cc_values md 4)) / 128 :: rat)
   \<and> 9 / 10 * (of_nat (unat (midi_cc_values md 4)) / 128 :: rat) \<le> 9 / 10
   \<and> nat \<lfloor>of_nat sr * (of_nat (unat (midi_cc_values md 5)) / 128 :: rat)\<rfloor> \<le> sr
   \<and> nat \<lfloor>of_nat sr * (of_nat (unat (midi_cc_values md 5)) / 128 :: rat)\<rfloor> \<le> delay_buffer_size sr
   \<and> 100 \<le> 3000 * (of_nat (unat (midi_cc_values md 6)) / 128 :: rat) + 100
   \<and> 3000 * (of_nat (unat (midi_cc_values md 6)) / 128 :: rat) + 100 \<le> 3100"
proof -
  have tr: "snd (core2_processaudio_background_loop sr md) =
     (if midi_cc_values_prev md 4 \<noteq> midi_cc_values md 4
      then [Delay_modify_feedback (9 / 10 * (of_nat (unat (midi_cc_values md 4)) / 128))] else [])
     @ (if midi_cc_values_prev md 5 \<noteq> midi_cc_values md 5
        then [Delay_modify_length (nat \<lfloor>of_nat sr * (of_nat (unat (midi_cc_values md 5)) / 128 :: rat)\<rfloor>)]
        else [])
     @ (if midi_cc_values_prev md 6 \<noteq> midi_cc_values md 6
        then [Filter_modify_freq (3000 * (of_nat (unat (midi_cc_values md 6)) / 128) + 100)] else [])"
    by (simp only: core2_calls char_float_data_byte [OF assms(1)]
        char_float_data_byte [OF assms(2)] char_float_data_byte [OF assms(3)])
  have len: "nat \<lfloor>of_nat sr * (of_nat (unat (midi_cc_values md 5)) / 128 :: rat)\<rfloor> \<le> sr"
    by (rule length_range) (rule unat_data_byte [OF assms(2)])
  then have cap: "nat \<lfloor>of_nat sr * (of_nat (unat (midi_cc_values md 5)) / 128 :: rat)\<rfloor> \<le> delay_buffer_size sr"
    by (simp add: delay_buffer_size_def)
  from tr len cap feedback_range [OF unat_data_byte [OF assms(1)]]
    freq_range [OF unat_data_byte [OF assms(3)]]
  show ?thesis by blast
qed

theorem cc_changes_forwarded_in_range_witness:
  "midi_cc_values bridge_cc_moved 4 \<le> 127 \<and> midi_cc_values bridge_cc_moved 5 \<le> 127
   \<and> midi_cc_values bridge_cc_moved 6 \<le> 127
   \<and> snd (core2_processaudio_background_loop 48000 bridge_cc_moved)
       = [Delay_modify_feedback (9 / 20), Delay_modify_length 47625, Filter_modify_freq 850]
   \<and> (47625::nat) \<le> delay_buffer_size 48000"
proof -
  have h: "midi_cc_values bridge_cc_moved 4 \<le> 127" "midi_cc_values bridge_cc_moved 5 \<le> 127"
    "midi_cc_values bridge_cc_moved 6 \<le> 127"
    by (simp_all add: bridge_cc_moved_def multicore_zero_def)
  show ?thesis
    using h cc_changes_forwarded_in_range [OF h, of 48000]
    by (simp add: bridge_cc_moved_def multicore_zero_def zero_bytes_def delay_buffer_size_def)
qed

text \<open>
  C8. When every slot a background pass monitors holds the same value as its
  previous-value field, the pass changes nothing: on core 2 (slots 4, 5 and 6) it makes no
  call to the delay or the filter and returns the bridge as it was; on core 1 (the 128
  note slots) it returns the state, with its 16 voices and all previous-velocity fields,
  as it was.
\<close>

theorem no_change_no_effect:
  "((\<forall>i\<in>{4, 5, 6}. midi_cc_values md i = midi_cc_values_prev md i) \<longrightarrow>
      core2_processaudio_background_loop sr md = (md, []))
   \<and> ((\<forall>i<128. velocity (midi_note (shared s) i) = velocity_prev (midi_note (shared s) i)) \<longrightarrow>
      core1_processaudio_background_loop s = s)"
proof (intro conjI impI)
  assume "\<forall>i\<in>{4, 5, 6}. midi_cc_values md i = midi_cc_values_prev md i"
  then show "core2_processaudio_background_loop sr md = (md, [])"
    by (simp add: core2_processaudio_background_loop_def cc4_block_def cc5_block_def cc6_block_def)
next
  assume a: "\<forall>i<128. velocity (midi_note (shared s) i) = velocity_prev (midi_note (shared s) i)"
  have "fold note_slot [0..<128] s = s"
  proof (rule fold_unchanged)
    fix x assume "x \<in> set [0..<128]"
    then have "x < 128" by simp
    with a show "note_slot x s = s" by (simp add: note_slot_def)
  qed
  then show "core1_processaudio_background_loop s = s"
    by (simp add: core1_processaudio_background_loop_def)
qed

theorem no_change_no_effect_witness:
  "core2_processaudio_background_loop 48000 bridge_note60_held = (bridge_note60_held, [])
   \<and> core1_processaudio_background_loop (sharc1_init\<lparr>shared := bridge_note60_held\<rparr>)
       = sharc1_init\<lparr>shared := bridge_note60_held\<rparr>"
  using no_change_no_effect [of bridge_note60_held 48000 "sharc1_init\<lparr>shared := bridge_note60_held\<rparr>"]
  by (simp add: bridge_note60_held_def multicore_zero_def zero_notes_def zero_note_def)

section \<open>The voice bank\<close>

lemma note_off_scan_no_match:
  "\<forall>j. indx \<le> j \<and> j < 16 \<longrightarrow> \<not> (playing (voices j) \<and> note_nr (voices j) = i) \<Longrightarrow>
   indx < 16 \<Longrightarrow> note_off_scan i indx voices = voices"
proof (induction i indx voices rule: note_off_scan.induct)
  case (1 i indx voices)
  then show ?case
    by (subst note_off_scan.simps) auto
qed

lemma note_off_scan_first:
  "indx \<le> k \<Longrightarrow> k < 16 \<Longrightarrow> playing (voices k) \<and> note_nr (voices k) = i \<Longrightarrow>
   \<forall>j. indx \<le> j \<and> j < k \<longrightarrow> \<not> (playing (voices j) \<and> note_nr (voices j) = i) \<Longrightarrow>
   note_off_scan i indx voices = voices(k := synth_stop_note (voices k))"
proof (induction i indx voices rule: note_off_scan.induct)
  case (1 i indx voices)
  show ?case
  proof (cases "playing (voices indx) \<and> note_nr (voices indx) = i")
    case True
    with "1.prems" have "indx = k"
      by (metis le_neq_implies_less order_refl)
    with True show ?thesis by (subst note_off_scan.simps) simp
  next
    case False
    with "1.prems" have lt: "indx < k" by (metis le_neq_implies_less)
    then have "note_off_scan i (indx + 1) voices = voices(k := synth_stop_note (voices k))"
      using False "1.prems" by (intro "1.IH") auto
    with False lt "1.prems" show ?thesis by (subst note_off_scan.simps) auto
  qed
qed

lemma note_on_scan_full:
  "\<forall>j. indx \<le> j \<and> j < 16 \<longrightarrow> playing (voices j) \<Longrightarrow>
   indx < 16 \<Longrightarrow> note_on_scan i amp indx voices = voices"
proof (induction i amp indx voices rule: note_on_scan.induct)
  case (1 i amp indx voices)
  then show ?case
    by (subst note_on_scan.simps) auto
qed

lemma note_on_scan_first:
  "indx \<le> k \<Longrightarrow> k < 16 \<Longrightarrow> \<not> playing (voices k) \<Longrightarrow>
   \<forall>j. indx \<le> j \<and> j < k \<longrightarrow> playing (voices j) \<Longrightarrow>
   note_on_scan i amp indx voices = voices(k := synth_play_note (voices k) i amp)"
proof (induction i amp indx voices rule: note_on_scan.induct)
  case (1 i amp indx voices)
  show ?case
  proof (cases "playing (voices indx)")
    case False
    with "1.prems" have "indx = k"
      by (metis le_neq_implies_less order_refl)
    with False show ?thesis by (subst note_on_scan.simps) simp
  next
    case True
    with "1.prems" have lt: "indx < k" by (metis le_neq_implies_less)
    then have "note_on_scan i amp (indx + 1) voices = voices(k := synth_play_note (voices k) i amp)"
      using True "1.prems" by (intro "1.IH") auto
    with True lt "1.prems" show ?thesis by (subst note_on_scan.simps) auto
  qed
qed

text \<open>
  C2, as amended. When the background pass sees the velocity of note \<open>i\<close> change to 0, it
  stops the lowest-indexed voice among the 16 that is playing and is assigned to \<open>i\<close>, and
  leaves every other voice as it was, a further voice playing \<open>i\<close> included; when no voice
  matches, no voice changes.
\<close>

theorem note_off_stops_first_match:
  "velocity (midi_note (shared s) i) = 0 \<and> velocity_prev (midi_note (shared s) i) \<noteq> 0 \<longrightarrow>
     (k < 16 \<and> playing (synth_voices s k) \<and> note_nr (synth_voices s k) = i
        \<and> (\<forall>j<k. \<not> (playing (synth_voices s j) \<and> note_nr (synth_voices s j) = i)) \<longrightarrow>
      synth_voices (note_slot i s) = (synth_voices s)(k := synth_stop_note (synth_voices s k)))
     \<and> ((\<forall>j<16. \<not> (playing (synth_voices s j) \<and> note_nr (synth_voices s j) = i)) \<longrightarrow>
      synth_voices (note_slot i s) = synth_voices s)"
proof (intro impI conjI)
  assume a: "velocity (midi_note (shared s) i) = 0 \<and> velocity_prev (midi_note (shared s) i) \<noteq> 0"
  then have eq: "synth_voices (note_slot i s) = note_off_scan i 0 (synth_voices s)"
    by (simp add: note_slot_def Let_def)
  {
    assume "k < 16 \<and> playing (synth_voices s k) \<and> note_nr (synth_voices s k) = i
        \<and> (\<forall>j<k. \<not> (playing (synth_voices s j) \<and> note_nr (synth_voices s j) = i))"
    then show "synth_voices (note_slot i s) = (synth_voices s)(k := synth_stop_note (synth_voices s k))"
      by (simp add: eq note_off_scan_first)
  }
  {
    assume "\<forall>j<16. \<not> (playing (synth_voices s j) \<and> note_nr (synth_voices s j) = i)"
    then show "synth_voices (note_slot i s) = synth_voices s"
      by (simp add: eq note_off_scan_no_match)
  }
qed

theorem note_off_stops_first_match_witness:
  "velocity (midi_note (shared retriggered_60_off) 60) = 0
   \<and> velocity_prev (midi_note (shared retriggered_60_off) 60) \<noteq> 0
   \<and> playing (synth_voices retriggered_60_off 0) \<and> note_nr (synth_voices retriggered_60_off 0) = 60
   \<and> synth_voices (note_slot 60 retriggered_60_off)
        = (synth_voices retriggered_60_off)(0 := synth_stop_note (synth_voices retriggered_60_off 0))
   \<and> velocity (midi_note (shared note61_off_unplayed) 61) = 0
   \<and> velocity_prev (midi_note (shared note61_off_unplayed) 61) \<noteq> 0
   \<and> synth_voices (note_slot 61 note61_off_unplayed) = synth_voices note61_off_unplayed"
proof -
  have a: "velocity (midi_note (shared retriggered_60_off) 60) = 0
   \<and> velocity_prev (midi_note (shared retriggered_60_off) 60) \<noteq> 0"
    by code_simp
  have a': "playing (synth_voices retriggered_60_off 0)
   \<and> note_nr (synth_voices retriggered_60_off 0) = 60"
    by code_simp
  then have k0: "(0::nat) < 16 \<and> playing (synth_voices retriggered_60_off 0)
      \<and> note_nr (synth_voices retriggered_60_off 0) = 60
      \<and> (\<forall>j<0. \<not> (playing (synth_voices retriggered_60_off j)
                   \<and> note_nr (synth_voices retriggered_60_off j) = 60))"
    by simp
  from a k0 note_off_stops_first_match [of retriggered_60_off 60 0]
  have b: "synth_voices (note_slot 60 retriggered_60_off)
        = (synth_voices retriggered_60_off)(0 := synth_stop_note (synth_voices retriggered_60_off 0))"
    by blast
  have c: "velocity (midi_note (shared note61_off_unplayed) 61) = 0
      \<and> velocity_prev (midi_note (shared note61_off_unplayed) 61) \<noteq> 0"
    by (simp add: note61_off_unplayed_def sharc1_init_def multicore_zero_def)
  have d: "\<forall>j<16. \<not> (playing (synth_voices note61_off_unplayed j)
      \<and> note_nr (synth_voices note61_off_unplayed j) = 61)"
    by (simp add: note61_off_unplayed_def sharc1_init_def silent_voices_def silent_voice_def)
  from c d note_off_stops_first_match [of note61_off_unplayed 61 0]
  have e: "synth_voices (note_slot 61 note61_off_unplayed) = synth_voices note61_off_unplayed"
    by blast
  from a a' b c e show ?thesis by blast
qed

text \<open>
  After note 60 was struck twice, voices 0 and 1 both play it. The pass that sees its
  note-off leaves voice 1 playing note 60.
\<close>

theorem note_off_leaves_second_voice_counterexample:
  "velocity (midi_note (shared retriggered_60_off) 60) = 0
   \<and> velocity_prev (midi_note (shared retriggered_60_off) 60) \<noteq> 0
   \<and> playing (synth_voices retriggered_60_off 1)
   \<and> note_nr (synth_voices retriggered_60_off 1) = 60
   \<and> playing (synth_voices (core1_processaudio_background_loop retriggered_60_off) 1)
   \<and> note_nr (synth_voices (core1_processaudio_background_loop retriggered_60_off) 1) = 60"
  by code_simp

text \<open>
  C4. When the background pass sees the velocity of note \<open>i\<close> change to a nonzero value, it
  starts the lowest-indexed voice that is not playing, with note \<open>i\<close> and the amplitude
  velocity / 128, and changes no other voice; when all 16 voices are playing, the voices
  are left as they were.
\<close>

theorem note_on_takes_first_free_voice:
  "velocity (midi_note (shared s) i) \<noteq> 0
   \<and> velocity (midi_note (shared s) i) \<noteq> velocity_prev (midi_note (shared s) i) \<longrightarrow>
     (k < 16 \<and> \<not> playing (synth_voices s k) \<and> (\<forall>j<k. playing (synth_voices s j)) \<longrightarrow>
      synth_voices (note_slot i s) =
        (synth_voices s)(k := synth_play_note (synth_voices s k) i
                                (of_nat (unat (velocity (midi_note (shared s) i))) / 128))
      \<and> playing (synth_voices (note_slot i s) k)
      \<and> note_nr (synth_voices (note_slot i s) k) = i
      \<and> amplitude (synth_voices (note_slot i s) k)
          = of_nat (unat (velocity (midi_note (shared s) i))) / 128)
     \<and> ((\<forall>j<16. playing (synth_voices s j)) \<longrightarrow> synth_voices (note_slot i s) = synth_voices s)"
proof (intro impI conjI)
  assume a: "velocity (midi_note (shared s) i) \<noteq> 0
   \<and> velocity (midi_note (shared s) i) \<noteq> velocity_prev (midi_note (shared s) i)"
  then have eq: "synth_voices (note_slot i s) =
      note_on_scan i (of_nat (unat (velocity (midi_note (shared s) i))) / 128) 0 (synth_voices s)"
    by (simp add: note_slot_def Let_def)
  {
    assume b: "k < 16 \<and> \<not> playing (synth_voices s k) \<and> (\<forall>j<k. playing (synth_voices s j))"
    then show r: "synth_voices (note_slot i s) =
        (synth_voices s)(k := synth_play_note (synth_voices s k) i
                                (of_nat (unat (velocity (midi_note (shared s) i))) / 128))"
      by (simp add: eq note_on_scan_first)
    show "playing (synth_voices (note_slot i s) k)"
      by (simp add: r synth_play_note_def)
    show "note_nr (synth_voices (note_slot i s) k) = i"
      by (simp add: r synth_play_note_def)
    show "amplitude (synth_voices (note_slot i s) k)
          = of_nat (unat (velocity (midi_note (shared s) i))) / 128"
      by (simp add: r synth_play_note_def)
  }
  {
    assume "\<forall>j<16. playing (synth_voices s j)"
    then show "synth_voices (note_slot i s) = synth_voices s"
      by (simp add: eq note_on_scan_full)
  }
qed

theorem note_on_takes_first_free_voice_witness:
  "velocity (midi_note (shared note60_on) 60) \<noteq> 0
   \<and> velocity (midi_note (shared note60_on) 60) \<noteq> velocity_prev (midi_note (shared note60_on) 60)
   \<and> \<not> playing (synth_voices note60_on 0)
   \<and> playing (synth_voices (note_slot 60 note60_on) 0)
   \<and> note_nr (synth_voices (note_slot 60 note60_on) 0) = 60
   \<and> amplitude (synth_voices (note_slot 60 note60_on) 0) = 100 / 128
   \<and> playing (synth_voices bank_full_note70_on 15)
   \<and> synth_voices (note_slot 70 bank_full_note70_on) = synth_voices bank_full_note70_on"
proof -
  have a: "velocity (midi_note (shared note60_on) 60) \<noteq> 0
   \<and> velocity (midi_note (shared note60_on) 60) \<noteq> velocity_prev (midi_note (shared note60_on) 60)"
    by (simp add: note60_on_def sharc1_init_def set_velocity_def multicore_zero_def
        zero_notes_def zero_note_def)
  have b: "\<not> playing (synth_voices note60_on 0)"
    by (simp add: note60_on_def sharc1_init_def silent_voices_def silent_voice_def)
  have v: "velocity (midi_note (shared note60_on) 60) = 100"
    by (simp add: note60_on_def sharc1_init_def set_velocity_def)
  have c: "velocity (midi_note (shared bank_full_note70_on) 70) \<noteq> 0
   \<and> velocity (midi_note (shared bank_full_note70_on) 70)
       \<noteq> velocity_prev (midi_note (shared bank_full_note70_on) 70)"
    by (simp add: bank_full_note70_on_def sharc1_init_def set_velocity_def multicore_zero_def
        zero_notes_def zero_note_def)
  have d: "\<forall>j<16. playing (synth_voices bank_full_note70_on j)"
    by (simp add: bank_full_note70_on_def busy_voices_def busy_voice_def)
  have k0: "(0::nat) < 16 \<and> \<not> playing (synth_voices note60_on 0)
      \<and> (\<forall>j<0. playing (synth_voices note60_on j))"
    using b by simp
  from a k0 note_on_takes_first_free_voice [of note60_on 60 0]
  have r1: "playing (synth_voices (note_slot 60 note60_on) 0)
    \<and> note_nr (synth_voices (note_slot 60 note60_on) 0) = 60
    \<and> amplitude (synth_voices (note_slot 60 note60_on) 0)
        = of_nat (unat (velocity (midi_note (shared note60_on) 60))) / 128"
    by blast
  from c d note_on_takes_first_free_voice [of bank_full_note70_on 70 0]
  have r2: "synth_voices (note_slot 70 bank_full_note70_on) = synth_voices bank_full_note70_on"
    by blast
  from a b d r1 r2 show ?thesis by (simp add: v)
qed

subsection \<open>One voice per note\<close>

lemma note_off_scan_cases:
  "(note_off_scan i 0 voices = voices \<and> (\<forall>j<16. \<not> (playing (voices j) \<and> note_nr (voices j) = i)))
   \<or> (\<exists>k<16. playing (voices k) \<and> note_nr (voices k) = i
         \<and> note_off_scan i 0 voices = voices(k := synth_stop_note (voices k)))"
proof (cases "\<exists>k. k < 16 \<and> playing (voices k) \<and> note_nr (voices k) = i")
  case False
  then show ?thesis by (simp add: note_off_scan_no_match)
next
  case True
  then obtain k where k: "k < 16 \<and> playing (voices k) \<and> note_nr (voices k) = i"
    and least: "\<forall>j<k. \<not> (j < 16 \<and> playing (voices j) \<and> note_nr (voices j) = i)"
    using exists_least_iff [of "\<lambda>k. k < 16 \<and> playing (voices k) \<and> note_nr (voices k) = i"]
    by blast
  from k least have "note_off_scan i 0 voices = voices(k := synth_stop_note (voices k))"
    by (intro note_off_scan_first) auto
  with k show ?thesis by blast
qed

lemma note_on_scan_cases:
  "(note_on_scan i amp 0 voices = voices \<and> (\<forall>j<16. playing (voices j)))
   \<or> (\<exists>k<16. \<not> playing (voices k)
         \<and> note_on_scan i amp 0 voices = voices(k := synth_play_note (voices k) i amp))"
proof (cases "\<exists>k. k < 16 \<and> \<not> playing (voices k)")
  case False
  then show ?thesis by (simp add: note_on_scan_full)
next
  case True
  then obtain k where k: "k < 16 \<and> \<not> playing (voices k)"
    and least: "\<forall>j<k. \<not> (j < 16 \<and> \<not> playing (voices j))"
    using exists_least_iff [of "\<lambda>k. k < 16 \<and> \<not> playing (voices k)"]
    by blast
  from k least have "note_on_scan i amp 0 voices = voices(k := synth_play_note (voices k) i amp)"
    by (intro note_on_scan_first) auto
  with k show ?thesis by blast
qed

lemma one_voice_per_note_iff:
  "one_voice_per_note voices \<longleftrightarrow>
     (\<forall>i j. i < 16 \<and> j < 16 \<and> playing (voices i) \<and> playing (voices j)
        \<and> note_nr (voices i) = note_nr (voices j) \<longrightarrow> i = j)"
  by (auto simp: one_voice_per_note_def)

lemma one_voice_stop:
  assumes "one_voice_per_note voices"
  shows "one_voice_per_note (voices(k := synth_stop_note (voices k)))"
  unfolding one_voice_per_note_iff
proof (intro allI impI)
  fix i j
  let ?vs = "voices(k := synth_stop_note (voices k))"
  assume a: "i < 16 \<and> j < 16 \<and> playing (?vs i) \<and> playing (?vs j) \<and> note_nr (?vs i) = note_nr (?vs j)"
  have ik: "i \<noteq> k"
  proof
    assume "i = k"
    with a show False by (simp add: synth_stop_note_def)
  qed
  have jk: "j \<noteq> k"
  proof
    assume "j = k"
    with a show False by (simp add: synth_stop_note_def)
  qed
  from a ik jk have "i < 16 \<and> j < 16 \<and> playing (voices i) \<and> playing (voices j)
      \<and> note_nr (voices i) = note_nr (voices j)"
    by simp
  with assms show "i = j" unfolding one_voice_per_note_iff by blast
qed

lemma one_voice_play:
  assumes one: "one_voice_per_note voices"
    and nobody: "\<forall>j<16. playing (voices j) \<longrightarrow> note_nr (voices j) \<noteq> n"
  shows "one_voice_per_note (voices(k := synth_play_note (voices k) n amp))"
  unfolding one_voice_per_note_iff
proof (intro allI impI)
  fix i j
  let ?vs = "voices(k := synth_play_note (voices k) n amp)"
  assume a: "i < 16 \<and> j < 16 \<and> playing (?vs i) \<and> playing (?vs j) \<and> note_nr (?vs i) = note_nr (?vs j)"
  show "i = j"
  proof (cases "i = k")
    case ik: True
    show ?thesis
    proof (cases "j = k")
      case True
      with ik show ?thesis by simp
    next
      case False
      with a ik have "j < 16 \<and> playing (voices j) \<and> note_nr (voices j) = n"
        by (simp add: synth_play_note_def)
      with nobody show ?thesis by blast
    qed
  next
    case ik: False
    show ?thesis
    proof (cases "j = k")
      case True
      with a ik have "i < 16 \<and> playing (voices i) \<and> note_nr (voices i) = n"
        by (simp add: synth_play_note_def)
      with nobody show ?thesis by blast
    next
      case False
      with a ik have "i < 16 \<and> j < 16 \<and> playing (voices i) \<and> playing (voices j)
          \<and> note_nr (voices i) = note_nr (voices j)"
        by simp
      with one show ?thesis unfolding one_voice_per_note_iff by blast
    qed
  qed
qed

lemma note_slot_unchanged:
  "velocity (midi_note (shared s) n) = velocity_prev (midi_note (shared s) n) \<Longrightarrow> note_slot n s = s"
  by (simp add: note_slot_def)

lemma note_slot_off:
  "velocity (midi_note (shared s) n) = 0 \<Longrightarrow> velocity_prev (midi_note (shared s) n) \<noteq> 0 \<Longrightarrow>
   note_slot n s =
     s\<lparr>shared := (shared s)\<lparr>midi_note := (midi_note (shared s))(n := (midi_note (shared s) n)\<lparr>velocity_prev := 0\<rparr>)\<rparr>,
       synth_voices := note_off_scan n 0 (synth_voices s)\<rparr>"
  by (simp add: note_slot_def Let_def)

lemma note_slot_on:
  "velocity (midi_note (shared s) n) \<noteq> 0 \<Longrightarrow>
   velocity (midi_note (shared s) n) \<noteq> velocity_prev (midi_note (shared s) n) \<Longrightarrow>
   note_slot n s =
     s\<lparr>shared := (shared s)\<lparr>midi_note := (midi_note (shared s))
          (n := (midi_note (shared s) n)\<lparr>velocity_prev := velocity (midi_note (shared s) n)\<rparr>)\<rparr>,
       synth_voices := note_on_scan n (of_nat (unat (velocity (midi_note (shared s) n))) * (1 / 128)) 0
                         (synth_voices s)\<rparr>"
  by (simp add: note_slot_def Let_def)

lemma bank_inv_note_off:
  assumes inv: "bank_inv s" and n: "n < 128"
    and v: "velocity (midi_note (shared s) n) = 0" and p: "velocity_prev (midi_note (shared s) n) \<noteq> 0"
  shows "bank_inv (note_slot n s)"
proof -
  let ?vs = "synth_voices s"
  from inv have one: "one_voice_per_note ?vs" and free: "prev_off_free s" and gated: "slots_gated s"
    by (simp_all add: bank_inv_def)
  have one': "one_voice_per_note (note_off_scan n 0 ?vs)"
    using note_off_scan_cases [of n ?vs] one by (auto simp: one_voice_stop)
  have gone: "\<forall>k<16. playing (note_off_scan n 0 ?vs k) \<longrightarrow> note_nr (note_off_scan n 0 ?vs k) \<noteq> n"
  proof (intro allI impI)
    fix k' assume k': "k' < 16" and pl: "playing (note_off_scan n 0 ?vs k')"
    from note_off_scan_cases [of n ?vs]
    show "note_nr (note_off_scan n 0 ?vs k') \<noteq> n"
    proof (elim disjE conjE exE)
      assume "note_off_scan n 0 ?vs = ?vs"
        and "\<forall>j<16. \<not> (playing (?vs j) \<and> note_nr (?vs j) = n)"
      with k' pl show ?thesis by auto
    next
      fix k assume k: "k < 16" "playing (?vs k)" "note_nr (?vs k) = n"
        and r: "note_off_scan n 0 ?vs = ?vs(k := synth_stop_note (?vs k))"
      from pl r have ne: "k' \<noteq> k" by (auto simp: synth_stop_note_def)
      with pl r have pl': "playing (?vs k')" by simp
      show ?thesis
      proof
        assume "note_nr (note_off_scan n 0 ?vs k') = n"
        with r ne have "note_nr (?vs k') = n" by simp
        with one k k' pl' have "k' = k" unfolding one_voice_per_note_iff by blast
        with ne show False by simp
      qed
    qed
  qed
  have others: "\<forall>m k. k < 16 \<and> playing (note_off_scan n 0 ?vs k) \<and> note_nr (note_off_scan n 0 ?vs k) = m
      \<longrightarrow> playing (?vs k) \<and> note_nr (?vs k) = m"
    using note_off_scan_cases [of n ?vs]
    by (auto simp: synth_stop_note_def split: if_splits)
  have free': "prev_off_free (note_slot n s)"
    unfolding prev_off_free_def
  proof (intro allI impI)
    fix m k assume m: "m < 128" and k: "k < 16"
      and pm: "velocity_prev (midi_note (shared (note_slot n s)) m) = 0"
      and pl: "playing (synth_voices (note_slot n s) k)"
    show "note_nr (synth_voices (note_slot n s) k) \<noteq> m"
    proof (cases "m = n")
      case True
      with gone k pl show ?thesis by (simp add: note_slot_off [OF v p])
    next
      case False
      with pm have "velocity_prev (midi_note (shared s) m) = 0"
        by (simp add: note_slot_off [OF v p])
      with free m have "\<forall>k<16. playing (?vs k) \<longrightarrow> note_nr (?vs k) \<noteq> m"
        by (simp add: prev_off_free_def)
      with others k pl show ?thesis by (auto simp: note_slot_off [OF v p])
    qed
  qed
  have gated': "slots_gated (note_slot n s)"
    using gated v by (auto simp: slots_gated_def note_slot_off [OF v p])
  from one' free' gated' show ?thesis
    by (simp add: bank_inv_def note_slot_off [OF v p])
qed

lemma bank_inv_note_on:
  assumes inv: "bank_inv s" and n: "n < 128"
    and v: "velocity (midi_note (shared s) n) \<noteq> 0"
    and c: "velocity (midi_note (shared s) n) \<noteq> velocity_prev (midi_note (shared s) n)"
  shows "bank_inv (note_slot n s)"
proof -
  let ?vs = "synth_voices s"
  let ?amp = "of_nat (unat (velocity (midi_note (shared s) n))) * (1 / 128) :: rat"
  from inv have one: "one_voice_per_note ?vs" and free: "prev_off_free s" and gated: "slots_gated s"
    by (simp_all add: bank_inv_def)
  from gated n v c have p: "velocity_prev (midi_note (shared s) n) = 0"
    by (auto simp: slots_gated_def)
  with free n have nobody: "\<forall>j<16. playing (?vs j) \<longrightarrow> note_nr (?vs j) \<noteq> n"
    by (simp add: prev_off_free_def)
  have one': "one_voice_per_note (note_on_scan n ?amp 0 ?vs)"
    using note_on_scan_cases [of n ?amp ?vs] one nobody by (auto simp: one_voice_play)
  have others: "\<forall>m k. k < 16 \<and> playing (note_on_scan n ?amp 0 ?vs k)
      \<and> note_nr (note_on_scan n ?amp 0 ?vs k) = m \<and> m \<noteq> n
      \<longrightarrow> playing (?vs k) \<and> note_nr (?vs k) = m"
    using note_on_scan_cases [of n ?amp ?vs]
    by (auto simp: synth_play_note_def split: if_splits)
  have free': "prev_off_free (note_slot n s)"
    unfolding prev_off_free_def
  proof (intro allI impI)
    fix m k assume m: "m < 128" and k: "k < 16"
      and pm: "velocity_prev (midi_note (shared (note_slot n s)) m) = 0"
      and pl: "playing (synth_voices (note_slot n s) k)"
    from pm v have mn: "m \<noteq> n" by (auto simp: note_slot_on [OF v c])
    with pm have "velocity_prev (midi_note (shared s) m) = 0"
      by (simp add: note_slot_on [OF v c])
    with free m have "\<forall>k<16. playing (?vs k) \<longrightarrow> note_nr (?vs k) \<noteq> m"
      by (simp add: prev_off_free_def)
    with others k pl mn show "note_nr (synth_voices (note_slot n s) k) \<noteq> m"
      by (auto simp: note_slot_on [OF v c])
  qed
  have gated': "slots_gated (note_slot n s)"
    using gated by (auto simp: slots_gated_def note_slot_on [OF v c])
  from one' free' gated' show ?thesis
    by (simp add: bank_inv_def note_slot_on [OF v c])
qed

lemma bank_inv_note_slot: "bank_inv s \<Longrightarrow> n < 128 \<Longrightarrow> bank_inv (note_slot n s)"
  using bank_inv_note_off [of s n] bank_inv_note_on [of s n] note_slot_unchanged [of s n]
  by (cases "velocity (midi_note (shared s) n) = velocity_prev (midi_note (shared s) n)";
      cases "velocity (midi_note (shared s) n) = 0") auto

lemma bank_inv_fold: "bank_inv s \<Longrightarrow> \<forall>n\<in>set ns. n < 128 \<Longrightarrow> bank_inv (fold note_slot ns s)"
  by (induction ns arbitrary: s) (simp_all add: bank_inv_note_slot)

lemma bank_inv_pass: "bank_inv s \<Longrightarrow> bank_inv (core1_processaudio_background_loop s)"
  by (simp add: core1_processaudio_background_loop_def bank_inv_fold)

lemma bank_inv_step: "bank_inv s \<Longrightarrow> event_gated e s \<Longrightarrow> bank_inv (core1_step e s)"
proof (cases e)
  case (Decoder_write n v)
  assume "bank_inv s" and "event_gated e s"
  with Decoder_write show ?thesis
    by (auto simp: bank_inv_def prev_off_free_def slots_gated_def set_velocity_def)
next
  case Background_pass
  assume "bank_inv s"
  with Background_pass show ?thesis by (simp add: bank_inv_pass)
qed

lemma bank_inv_run: "bank_inv s \<Longrightarrow> run_gated evs s \<Longrightarrow> bank_inv (core1_run evs s)"
  unfolding core1_run_def
  by (induction evs arbitrary: s) (simp_all add: bank_inv_step)

lemma bank_inv_init:
  "\<forall>k<16. \<not> playing (synth_voices s k) \<Longrightarrow> shared s = multicore_zero \<Longrightarrow> bank_inv s"
  by (auto simp: bank_inv_def one_voice_per_note_iff prev_off_free_def slots_gated_def
      multicore_zero_def zero_notes_def zero_note_def)

text \<open>
  C3, as amended. Start with no voice playing and the bridge all zero, and let the decoder
  store a nonzero velocity in a note slot only while that slot's previous velocity is 0
  (so that every note-on the pass sees is for a note it last saw off). Then in every state
  reached by decoder writes and background passes, at most one of the 16 voices plays any
  given note.
\<close>

theorem gated_runs_one_voice_per_note:
  "(\<forall>k<16. \<not> playing (synth_voices s k)) \<and> shared s = multicore_zero \<and> run_gated evs s \<longrightarrow>
   one_voice_per_note (synth_voices (core1_run evs s))"
  using bank_inv_run [of s evs] bank_inv_init [of s] by (auto simp: bank_inv_def)

theorem gated_runs_one_voice_per_note_witness:
  "shared sharc1_init = multicore_zero
   \<and> run_gated [Decoder_write 60 100, Background_pass, Decoder_write 60 0, Decoder_write 62 80,
                 Background_pass, Decoder_write 60 90, Background_pass] sharc1_init
   \<and> one_voice_per_note (synth_voices (core1_run
        [Decoder_write 60 100, Background_pass, Decoder_write 60 0, Decoder_write 62 80,
         Background_pass, Decoder_write 60 90, Background_pass] sharc1_init))"
proof -
  have a: "\<forall>k<16. \<not> playing (synth_voices sharc1_init k)"
    by (simp add: sharc1_init_def silent_voices_def silent_voice_def)
  have b: "shared sharc1_init = multicore_zero"
    by (simp add: sharc1_init_def)
  have c: "run_gated [Decoder_write 60 100, Background_pass, Decoder_write 60 0, Decoder_write 62 80,
                 Background_pass, Decoder_write 60 90, Background_pass] sharc1_init"
    by code_simp
  from a b c gated_runs_one_voice_per_note [of sharc1_init
      "[Decoder_write 60 100, Background_pass, Decoder_write 60 0, Decoder_write 62 80,
        Background_pass, Decoder_write 60 90, Background_pass]"]
  show ?thesis by blast
qed

text \<open>
  Without that restriction the property fails: note 60 struck at velocity 100 and again at
  velocity 90, with a pass after each, leaves voices 0 and 1 both playing note 60.
\<close>

theorem retrigger_two_voices_counterexample:
  "\<not> one_voice_per_note (synth_voices retriggered_60)
   \<and> playing (synth_voices retriggered_60 0) \<and> note_nr (synth_voices retriggered_60 0) = 60
   \<and> playing (synth_voices retriggered_60 1) \<and> note_nr (synth_voices retriggered_60 1) = 60"
  by code_simp

section \<open>The block callback of the synth core\<close>

text \<open>
  Whatever the voices generate, the callback's outputs are the previous contents of the
  output buffers scaled by 0.25.
\<close>

lemma callback_outputs:
  "audiochannel_0_left_out (core1_processaudio_callback synth_read n s)
     = gain_buffer (audiochannel_0_left_out s) (1 / 4) n
   \<and> audiochannel_0_right_out (core1_processaudio_callback synth_read n s)
     = gain_buffer (audiochannel_0_right_out s) (1 / 4) n"
  by (simp add: core1_processaudio_callback_def split: prod.splits)

text \<open>
  C1. The claim is that each output sample is 0.25 times the sum of the 16 voices' samples.
  With a block size of 4, voice 0 generating \<open>[1, 1, 1, 1]\<close>, the other voices silent and
  silence in the output buffers on entry, the accumulated mix is \<open>[1, 1, 1, 1]\<close>, but both
  outputs are \<open>[0, 0, 0, 0]\<close> instead of \<open>[0.25, 0.25, 0.25, 0.25]\<close>: the accumulator is
  never copied to the outputs.
\<close>

theorem callback_output_ignores_voices:
  "snd (mix_voices dc_synth_read 4 (synth_voices voice0_sounding)) = [1, 1, 1, 1]
   \<and> audiochannel_0_left_out voice0_sounding = [0, 0, 0, 0]
   \<and> audiochannel_0_left_out (core1_processaudio_callback dc_synth_read 4 voice0_sounding)
       = [0, 0, 0, 0]
   \<and> audiochannel_0_right_out (core1_processaudio_callback dc_synth_read 4 voice0_sounding)
       = [0, 0, 0, 0]"
  by code_simp

end
